theory Spec2Isabelle
  imports Complex_Main
begin

section \<open>Python values, errors and generators\<close>

text \<open>
  The field values of a token that the code inspects: \<open>None\<close>, an \<open>int\<close>, a \<open>str\<close>, and
  any other object (the tuple of a range id such as \<open>4-5\<close>, a dict of features, a list of
  dependencies). The code only ever asks three things of a value: whether its type is
  \<open>int\<close>, whether it equals \<open>0\<close>, and what \<open>str\<close> makes of it; so another object is carried
  as the text \<open>str\<close> gives for it. Floats and booleans are not part of the model.
\<close>

datatype pyval = PNone | PInt int | PStr string | PObj string

datatype py_error =
  KeyError | OSError | UnicodeDecodeError | ParseException | IndexError
  | ZeroDivisionError | UDError

text \<open>A token is a dict from field names to values.\<close>

type_synonym token = "string \<rightharpoonup> pyval"

text \<open>
  A generator is run to its end: the items it yields, in order, and how it stops: \<open>None\<close>
  when it is exhausted, \<open>Some e\<close> when the exception \<open>e\<close> is raised after those items.
\<close>

type_synonym 'a gen = "'a list \<times> py_error option"

section \<open>conllu.py: the record model\<close>

definition create_root :: token where
  "create_root = Map.empty(
     ''id'' \<mapsto> PInt 0,
     ''form'' \<mapsto> PStr ''<ROOT>'',
     ''lemma'' \<mapsto> PStr ''<ROOT>'',
     ''upos'' \<mapsto> PStr ''ROOT'',
     ''xpos'' \<mapsto> PStr ''ROOT'',
     ''feats'' \<mapsto> PStr ''_'',
     ''head'' \<mapsto> PInt 0,
     ''deprel'' \<mapsto> PStr ''root'',
     ''deps'' \<mapsto> PStr ''_'',
     ''misc'' \<mapsto> PStr ''_'')"

text \<open>\<open>type(v) is int\<close>\<close>

fun type_is_int :: "pyval \<Rightarrow> bool" where
  "type_is_int (PInt n) = True"
| "type_is_int v = False"

text \<open>
  The loop of \<open>parse_conll\<close> over the token table, with the list \<open>tokens\<close> built so far.
  \<open>token['id']\<close> raises \<open>KeyError\<close> on a token that has no \<open>id\<close>.
\<close>

fun parse_loop :: "token list \<Rightarrow> token list \<Rightarrow> py_error + token list" where
  "parse_loop [] tokens = Inr tokens"
| "parse_loop (t # ts) tokens =
     (case t ''id'' of
        None \<Rightarrow> Inl KeyError
      | Some v \<Rightarrow>
          if type_is_int v then parse_loop ts (tokens @ [t]) else parse_loop ts tokens)"

definition parse_conll :: "token list \<Rightarrow> (token list) gen" where
  "parse_conll tokenlist =
     (case parse_loop tokenlist [create_root] of
        Inl e \<Rightarrow> ([], Some e)
      | Inr tokens \<Rightarrow> if length tokens > 1 then ([tokens], None) else ([], None))"

section \<open>conllu.py: the reader\<close>

text \<open>
  \<open>yield from parse_conll(tokenlist)\<close> for each token table that \<open>parse_incr\<close> gives, where
  \<open>stop\<close> is how \<open>parse_incr\<close> itself ends after those tables. An exception of
  \<open>parse_conll\<close> ends the reader at once.
\<close>

fun read_loop :: "token list list \<Rightarrow> py_error option \<Rightarrow> (token list) gen" where
  "read_loop [] stop = ([], stop)"
| "read_loop (tokenlist # rest) stop =
     (case parse_conll tokenlist of
        (ys, Some e) \<Rightarrow> (ys, Some e)
      | (ys, None) \<Rightarrow> (case read_loop rest stop of (zs, r) \<Rightarrow> (ys @ zs, r)))"

text \<open>
  \<open>open_file\<close> is the file system (\<open>Inl e\<close>: the path cannot be opened) and \<open>parse_incr\<close> is
  the incremental parser of the \<open>conllu\<close> package, which reads the open file block by block:
  the token tables it yields and the exception, if any, that reading or parsing raises
  after them.
\<close>

definition read_conll ::
  "(string \<Rightarrow> py_error + 'f) \<Rightarrow> ('f \<Rightarrow> (token list) gen) \<Rightarrow> string \<Rightarrow> (token list) gen" where
  "read_conll open_file parse_incr file_path =
     (case open_file file_path of
        Inl e \<Rightarrow> ([], Some e)
      | Inr f \<Rightarrow> (case parse_incr f of (tokenlists, stop) \<Rightarrow> read_loop tokenlists stop))"

section \<open>conllu.py: the writer\<close>

text \<open>\<open>str(v)\<close>: the decimal text of an integer, a string as it is.\<close>

fun str_nat :: "nat \<Rightarrow> string" where
  "str_nat n =
     (if n < 10 then [''0123456789'' ! n]
      else str_nat (n div 10) @ [''0123456789'' ! (n mod 10)])"

declare str_nat.simps [simp del]

definition str_int :: "int \<Rightarrow> string" where
  "str_int i = (if i < 0 then CHR ''-'' # str_nat (nat (- i)) else str_nat (nat i))"

fun py_str :: "pyval \<Rightarrow> string" where
  "py_str PNone = ''None''"
| "py_str (PInt n) = str_int n"
| "py_str (PStr s) = s"
| "py_str (PObj s) = s"

text \<open>\<open>v == 0\<close>\<close>

fun py_eq_zero :: "pyval \<Rightarrow> bool" where
  "py_eq_zero (PInt n) = (n = 0)"
| "py_eq_zero v = False"

text \<open>\<open>token.get(k)\<close>: \<open>None\<close> for a key that the dict does not have.\<close>

definition dict_get :: "token \<Rightarrow> string \<Rightarrow> pyval" where
  "dict_get t k = (case t k of None \<Rightarrow> PNone | Some v \<Rightarrow> v)"

text \<open>\<open>sep.join(xs)\<close>\<close>

fun join :: "string \<Rightarrow> string list \<Rightarrow> string" where
  "join sep [] = []"
| "join sep [x] = x"
| "join sep (x # y # ys) = x @ sep @ join sep (y # ys)"

definition attrs :: "string list" where
  "attrs = [''id'', ''form'', ''lemma'', ''upos'', ''xpos'', ''feats'', ''head'', ''deprel'',
            ''deps'', ''misc'']"

definition tab :: string where
  "tab = [CHR 0x09]"

definition newline :: string where
  "newline = [CHR 0x0A]"

definition cols :: "token \<Rightarrow> string list" where
  "cols token = map (\<lambda>v. if v \<noteq> PNone then py_str v else ''_'') (map (dict_get token) attrs)"

text \<open>
  The writer is the text written to it so far. The inner loop of \<open>dump_conll\<close> over the
  tokens of one sentence; \<open>token["id"]\<close> raises \<open>KeyError\<close> on a token that has no \<open>id\<close>,
  after the lines of the tokens before it have been written.
\<close>

fun dump_tokens :: "token list \<Rightarrow> string \<Rightarrow> string \<times> py_error option" where
  "dump_tokens [] writer = (writer, None)"
| "dump_tokens (token # rest) writer =
     (case token ''id'' of
        None \<Rightarrow> (writer, Some KeyError)
      | Some v \<Rightarrow>
          if py_eq_zero v then dump_tokens rest writer
          else dump_tokens rest (writer @ join tab (cols token) @ newline))"

fun dump_docs :: "token list list \<Rightarrow> string \<Rightarrow> string \<times> py_error option" where
  "dump_docs [] writer = (writer, None)"
| "dump_docs (tokens # docs) writer =
     (case dump_tokens tokens writer of
        (w, Some e) \<Rightarrow> (w, Some e)
      | (w, None) \<Rightarrow> dump_docs docs (w @ newline))"

text \<open>\<open>writer.flush()\<close> leaves the text as it is.\<close>

definition dump_conll :: "token list list \<Rightarrow> string \<Rightarrow> string \<times> py_error option" where
  "dump_conll docs writer = dump_docs docs writer"

section \<open>conllu.py: the evaluation entry point\<close>

text \<open>
  Modelled from the spec: the \<open>Score\<close> objects of the module \<open>utils.eval\<close>, which is not
  among the sources: each metric is finalised into precision, recall and F1.
\<close>

record score =
  precision :: real
  recall :: real
  f1 :: real

datatype result_val = RNum real | RStr string

text \<open>
  \<open>evaluate(gold_file, system_file)\<close>. \<open>open_file\<close> is the file system; \<open>load_conllu\<close> and
  \<open>eval_evaluate\<close> are the two functions of \<open>utils.eval\<close> that it calls. The gold file is
  opened and loaded first. \<open>scores['LAS']\<close> raises \<open>KeyError\<close> when the key is missing.
\<close>

definition evaluate ::
  "(string \<Rightarrow> py_error + 'f) \<Rightarrow> ('f \<Rightarrow> py_error + 'c) \<Rightarrow>
   ('c \<Rightarrow> 'c \<Rightarrow> py_error + (string \<rightharpoonup> score)) \<Rightarrow> string \<Rightarrow> string \<Rightarrow>
   py_error + (string \<rightharpoonup> result_val)" where
  "evaluate open_file load_conllu eval_evaluate gold_file system_file =
     (case open_file gold_file of Inl e \<Rightarrow> Inl e | Inr gf \<Rightarrow>
      case open_file system_file of Inl e \<Rightarrow> Inl e | Inr sf \<Rightarrow>
      case load_conllu gf of Inl e \<Rightarrow> Inl e | Inr gold \<Rightarrow>
      case load_conllu sf of Inl e \<Rightarrow> Inl e | Inr system \<Rightarrow>
      case eval_evaluate gold system of Inl e \<Rightarrow> Inl e | Inr scores \<Rightarrow>
      case scores ''LAS'' of None \<Rightarrow> Inl KeyError | Some las \<Rightarrow>
      case scores ''UAS'' of None \<Rightarrow> Inl KeyError | Some uas \<Rightarrow>
        Inr (Map.empty(''LAS'' \<mapsto> RNum (f1 las), ''UAS'' \<mapsto> RNum (f1 uas),
                       ''raw'' \<mapsto> RStr [])))"

section \<open>The scorer and the corpus-level evaluation of the spec\<close>

text \<open>
  Modelled from the spec: the sentence-level scorer (section 4.5), which is not among the
  sources. Given predicted arcs and labels, gold arcs and labels and an ignore-mask, all of
  one length, it counts the positions where the mask is false and the arc is right
  (\<open>unlabeled_correct\<close>), those where moreover the label is right (\<open>labeled_correct\<close>), and
  those where the mask is false (\<open>scored_count\<close>). Sequences of different lengths are an
  alignment error (section 7).
\<close>

fun count_scored :: "(int \<times> int \<times> int \<times> int \<times> bool) list \<Rightarrow> nat \<times> nat \<times> nat" where
  "count_scored [] = (0, 0, 0)"
| "count_scored ((pa, pl, ga, gl, m) # rest) =
     (case count_scored rest of
        (u, l, c) \<Rightarrow>
          if m then (u, l, c)
          else ((if pa = ga then Suc u else u),
                (if pa = ga \<and> pl = gl then Suc l else l),
                Suc c))"

definition spec_sentence_score ::
  "int list \<Rightarrow> int list \<Rightarrow> int list \<Rightarrow> int list \<Rightarrow> bool list \<Rightarrow> py_error + nat \<times> nat \<times> nat" where
  "spec_sentence_score pred_arcs pred_labels gold_arcs gold_labels ignore_mask =
     (if length pred_arcs = length gold_arcs \<and> length pred_labels = length gold_arcs
         \<and> length gold_labels = length gold_arcs \<and> length ignore_mask = length gold_arcs
      then Inr (count_scored
                  (zip pred_arcs (zip pred_labels (zip gold_arcs (zip gold_labels ignore_mask)))))
      else Inl UDError)"

text \<open>
  Modelled from the spec: the corpus-level evaluation (section 4.6), the \<open>evaluate\<close> of
  \<open>utils.eval\<close>. A corpus is a list of sentences, each with its arcs, its labels and its
  ignore-mask; gold and system corpora are aligned by position. The sentence results are
  folded into one accumulator; corpora of different lengths are an error, and so is a zero
  total; \<open>UAS\<close> and \<open>LAS\<close> are the ratios of the correct counts to the scored count, and
  precision, recall and F1 are that one ratio.
\<close>

record sentence_data =
  arcs :: "int list"
  labels :: "int list"
  ignore :: "bool list"

fun spec_fold ::
  "sentence_data list \<Rightarrow> sentence_data list \<Rightarrow> nat \<times> nat \<times> nat \<Rightarrow> py_error + nat \<times> nat \<times> nat" where
  "spec_fold [] [] acc = Inr acc"
| "spec_fold (g # gs) (s # ss) (u, l, c) =
     (case spec_sentence_score (arcs s) (labels s) (arcs g) (labels g) (ignore g) of
        Inl e \<Rightarrow> Inl e
      | Inr (u', l', c') \<Rightarrow> spec_fold gs ss (u + u', l + l', c + c'))"
| "spec_fold gs ss acc = Inl UDError"

definition ratio_score :: "nat \<Rightarrow> nat \<Rightarrow> score" where
  "ratio_score correct scored =
     \<lparr>precision = real correct / real scored, recall = real correct / real scored,
      f1 = real correct / real scored\<rparr>"

definition spec_eval_evaluate ::
  "sentence_data list \<Rightarrow> sentence_data list \<Rightarrow> py_error + (string \<rightharpoonup> score)" where
  "spec_eval_evaluate gold system =
     (case spec_fold gold system (0, 0, 0) of
        Inl e \<Rightarrow> Inl e
      | Inr (u, l, c) \<Rightarrow>
          if c = 0 then Inl ZeroDivisionError
          else Inr (Map.empty(''UAS'' \<mapsto> ratio_score u c, ''LAS'' \<mapsto> ratio_score l c)))"

section \<open>parser.py: the totals of \<open>test\<close>\<close>

text \<open>
  One batch of the dataset: the word and part-of-speech ids of its sentences and their gold
  arcs and labels.
\<close>

record batch =
  word_tokens :: "int list list"
  pos_tokens :: "int list list"
  true_arcs :: "int list list"
  true_labels :: "int list list"

text \<open>
  The numbers that \<open>test\<close> adds and divides. The totals start at the Python float \<open>0.0\<close>, a
  built-in number; what \<open>evaluator.evaluate\<close> returns may be built-in numbers or scalars of
  an array library (the batches are arrays: \<open>batch[-1].T\<close>), and the two kinds differ at a
  zero divisor. A number is its kind and its value, floats being read as reals and the
  evaluator's results being finite.
\<close>

datatype num_kind = Builtin | ArrayScalar

record pynum =
  kind :: num_kind
  val :: real

text \<open>The literal \<open>0.0\<close>.\<close>

definition py_zero :: pynum where
  "py_zero = \<lparr>kind = Builtin, val = 0\<rparr>"

text \<open>\<open>a + b\<close>: the sum is a built-in number only when both operands are.\<close>

definition py_add :: "pynum \<Rightarrow> pynum \<Rightarrow> pynum" where
  "py_add a b =
     \<lparr>kind = (if kind a = Builtin \<and> kind b = Builtin then Builtin else ArrayScalar),
      val = val a + val b\<rparr>"

text \<open>
  What a division gives: a finite number or, from an array scalar at a zero divisor, an
  infinity or not-a-number.
\<close>

datatype fnum = Finite real | PosInf | NegInf | NaN

definition zero_division_value :: "real \<Rightarrow> fnum" where
  "zero_division_value a = (if a = 0 then NaN else if 0 < a then PosInf else NegInf)"

text \<open>
  \<open>a / b\<close>: at a zero divisor Python raises \<open>ZeroDivisionError\<close> when both operands are
  built-in numbers; when one of them is an array scalar the library divides, warns and
  returns an infinity or not-a-number.
\<close>

definition py_truediv :: "pynum \<Rightarrow> pynum \<Rightarrow> py_error + fnum" where
  "py_truediv a b =
     (if val b \<noteq> 0 then Inr (Finite (val a / val b))
      else if kind a = Builtin \<and> kind b = Builtin then Inl ZeroDivisionError
      else Inr (zero_division_value (val a)))"

text \<open>\<open>x * 100\<close>\<close>

fun times_100 :: "fnum \<Rightarrow> fnum" where
  "times_100 (Finite x) = Finite (x * 100)"
| "times_100 PosInf = PosInf"
| "times_100 NegInf = NegInf"
| "times_100 NaN = NaN"

text \<open>
  The three collaborators of \<open>test\<close> that are not among the sources: \<open>parser.parse\<close>,
  \<open>evaluator.create_ignore_mask\<close> and \<open>evaluator.evaluate\<close>.
\<close>

record collaborators =
  parse :: "int list list \<Rightarrow> int list list \<Rightarrow> int list list \<times> int list list"
  create_ignore_mask :: "int list \<Rightarrow> int list \<Rightarrow> bool list"
  evaluator_evaluate ::
    "int list \<Rightarrow> int list \<Rightarrow> int list \<Rightarrow> int list \<Rightarrow> bool list \<Rightarrow> pynum \<times> pynum \<times> pynum"

text \<open>
  The inner loop, \<open>for i, (p_arcs, p_labels, t_arcs, t_labels) in enumerate(zip(...))\<close>, from
  index \<open>i\<close> on. \<open>word_tokens[i]\<close> and \<open>pos_tokens[i]\<close> raise \<open>IndexError\<close> out of range. The
  \<open>decode\<close> branch only prints and is left out.
\<close>

fun test_sentences ::
  "collaborators \<Rightarrow> batch \<Rightarrow> nat \<Rightarrow> (int list \<times> int list \<times> int list \<times> int list) list \<Rightarrow>
   pynum \<times> pynum \<times> pynum \<Rightarrow> py_error + pynum \<times> pynum \<times> pynum" where
  "test_sentences K b i [] acc = Inr acc"
| "test_sentences K b i ((p_arcs, p_labels, t_arcs, t_labels) # rest) (UAS, LAS, count) =
     (if i < length (word_tokens b) \<and> i < length (pos_tokens b) then
        (case evaluator_evaluate K p_arcs p_labels t_arcs t_labels
                (create_ignore_mask K (word_tokens b ! i) (pos_tokens b ! i)) of
           (uas, las, n) \<Rightarrow>
             test_sentences K b (Suc i) rest (py_add UAS uas, py_add LAS las, py_add count n))
      else Inl IndexError)"

text \<open>\<open>zip\<close> stops at the shortest of its four arguments.\<close>

definition batch_items ::
  "collaborators \<Rightarrow> batch \<Rightarrow> (int list \<times> int list \<times> int list \<times> int list) list" where
  "batch_items K b =
     (case parse K (word_tokens b) (pos_tokens b) of
        (arcs_batch, labels_batch) \<Rightarrow>
          zip arcs_batch (zip labels_batch (zip (true_arcs b) (true_labels b))))"

fun test_batches ::
  "collaborators \<Rightarrow> batch list \<Rightarrow> pynum \<times> pynum \<times> pynum \<Rightarrow>
   py_error + pynum \<times> pynum \<times> pynum" where
  "test_batches K [] acc = Inr acc"
| "test_batches K (b # bs) acc =
     (case test_sentences K b 0 (batch_items K b) acc of
        Inl e \<Rightarrow> Inl e
      | Inr acc' \<Rightarrow> test_batches K bs acc')"

text \<open>Lines 160 to 179: the totals after the loop over the whole dataset.\<close>

definition test_totals ::
  "collaborators \<Rightarrow> batch list \<Rightarrow> py_error + pynum \<times> pynum \<times> pynum" where
  "test_totals K dataset = test_batches K dataset (py_zero, py_zero, py_zero)"

text \<open>
  Lines 180 and 181: the two numbers that \<open>test\<close> logs, \<open>UAS / count * 100\<close> and then
  \<open>LAS / count * 100\<close>; an exception of either division ends \<open>test\<close> before the log line.
\<close>

definition test :: "collaborators \<Rightarrow> batch list \<Rightarrow> py_error + fnum \<times> fnum" where
  "test K dataset =
     (case test_totals K dataset of
        Inl e \<Rightarrow> Inl e
      | Inr (UAS, LAS, count) \<Rightarrow>
          (case py_truediv UAS count of
             Inl e \<Rightarrow> Inl e
           | Inr u \<Rightarrow>
               (case py_truediv LAS count of
                  Inl e \<Rightarrow> Inl e
                | Inr l \<Rightarrow> Inr (times_100 u, times_100 l))))"

section \<open>Specification-side notions\<close>

text \<open>A token with an integer id, and the integer ids of a list of tokens.\<close>

definition has_int_id :: "token \<Rightarrow> bool" where
  "has_int_id t = (case t ''id'' of Some (PInt n) \<Rightarrow> True | _ \<Rightarrow> False)"

definition has_id :: "token \<Rightarrow> bool" where
  "has_id t = (case t ''id'' of Some v \<Rightarrow> True | None \<Rightarrow> False)"

fun int_ids :: "token list \<Rightarrow> int list" where
  "int_ids [] = []"
| "int_ids (t # ts) = (case t ''id'' of Some (PInt n) \<Rightarrow> n # int_ids ts | _ \<Rightarrow> int_ids ts)"

text \<open>The ids of a sentence are \<open>0, 1, 2, ...\<close>: sequential, with no gap.\<close>

definition sequential_ids :: "token list \<Rightarrow> bool" where
  "sequential_ids s = (map (\<lambda>t. t ''id'') s = map (\<lambda>i. Some (PInt (int i))) [0..<length s])"

text \<open>
  A reader result as the spec reads "no partial iteration": when iteration ends in an
  error, no sentence has been produced before it.
\<close>

definition no_partial_iteration :: "'a gen \<Rightarrow> bool" where
  "no_partial_iteration r = (case r of (items, None) \<Rightarrow> True | (items, Some e) \<Rightarrow> items = [])"

text \<open>
  The text of the writer, in the spec's words: one line per token whose id is not \<open>0\<close>, the
  ten columns joined by tabs, and one empty line after each sentence. \<open>render\<close> turns the
  entry of a field (\<open>None\<close> when the key is missing) into the text of its column.
\<close>

definition spec_columns :: "string list" where
  "spec_columns = [''id'', ''form'', ''lemma'', ''upos'', ''xpos'', ''feats'', ''head'',
                   ''deprel'', ''deps'', ''misc'']"

definition spec_line :: "(pyval option \<Rightarrow> string) \<Rightarrow> token \<Rightarrow> string" where
  "spec_line render t = join tab (map (\<lambda>k. render (t k)) spec_columns) @ newline"

definition spec_block :: "(pyval option \<Rightarrow> string) \<Rightarrow> token list \<Rightarrow> string" where
  "spec_block render s =
     concat (map (spec_line render) (filter (\<lambda>t. t ''id'' \<noteq> Some (PInt 0)) s)) @ newline"

definition spec_output :: "(pyval option \<Rightarrow> string) \<Rightarrow> token list list \<Rightarrow> string" where
  "spec_output render docs = concat (map (spec_block render) docs)"

text \<open>A missing key and \<open>None\<close> give \<open>_\<close>; any other value gives its \<open>str\<close>.\<close>

fun render_absent :: "pyval option \<Rightarrow> string" where
  "render_absent None = ''_''"
| "render_absent (Some PNone) = ''_''"
| "render_absent (Some v) = py_str v"

text \<open>The rendering as the spec words it: an empty value gives \<open>_\<close> as well.\<close>

fun render_absent_or_empty :: "pyval option \<Rightarrow> string" where
  "render_absent_or_empty None = ''_''"
| "render_absent_or_empty (Some PNone) = ''_''"
| "render_absent_or_empty (Some v) = (if py_str v = [] then ''_'' else py_str v)"

text \<open>
  The elementwise sum of two results of the evaluator, and of a list of them; the result of
  the evaluator for the sentence at index \<open>i\<close> of a batch, and for every sentence of a batch
  and of a dataset.
\<close>

fun add3 :: "pynum \<times> pynum \<times> pynum \<Rightarrow> pynum \<times> pynum \<times> pynum \<Rightarrow> pynum \<times> pynum \<times> pynum" where
  "add3 (a, b, c) (a', b', c') = (py_add a a', py_add b b', py_add c c')"

fun sum3 :: "(pynum \<times> pynum \<times> pynum) list \<Rightarrow> pynum \<times> pynum \<times> pynum" where
  "sum3 [] = (py_zero, py_zero, py_zero)"
| "sum3 (r # rs) = add3 r (sum3 rs)"

fun sentence_result ::
  "collaborators \<Rightarrow> batch \<Rightarrow> nat \<times> int list \<times> int list \<times> int list \<times> int list \<Rightarrow>
   pynum \<times> pynum \<times> pynum" where
  "sentence_result K b (i, p_arcs, p_labels, t_arcs, t_labels) =
     evaluator_evaluate K p_arcs p_labels t_arcs t_labels
       (create_ignore_mask K (word_tokens b ! i) (pos_tokens b ! i))"

definition sentence_results :: "collaborators \<Rightarrow> batch \<Rightarrow> (pynum \<times> pynum \<times> pynum) list" where
  "sentence_results K b = map (sentence_result K b) (enumerate 0 (batch_items K b))"

definition corpus_results :: "collaborators \<Rightarrow> batch list \<Rightarrow> (pynum \<times> pynum \<times> pynum) list" where
  "corpus_results K dataset = concat (map (sentence_results K) dataset)"

text \<open>Every sentence that the loop reaches in a batch has its word and tag ids.\<close>

definition batch_in_range :: "collaborators \<Rightarrow> batch \<Rightarrow> bool" where
  "batch_in_range K b =
     (length (batch_items K b) \<le> min (length (word_tokens b)) (length (pos_tokens b)))"

text \<open>A result of three built-in numbers, and one of three array scalars.\<close>

fun builtin3 :: "pynum \<times> pynum \<times> pynum \<Rightarrow> bool" where
  "builtin3 (u, l, n) = (kind u = Builtin \<and> kind l = Builtin \<and> kind n = Builtin)"

fun array3 :: "pynum \<times> pynum \<times> pynum \<Rightarrow> bool" where
  "array3 (u, l, n) = (kind u = ArrayScalar \<and> kind l = ArrayScalar \<and> kind n = ArrayScalar)"

text \<open>A score as a percentage of the scored tokens.\<close>

definition percentage :: "nat \<Rightarrow> nat \<Rightarrow> real" where
  "percentage correct scored = 100 * real correct / real scored"

subsection \<open>Sample data\<close>

text \<open>A token with an integer id and a form, and the token of the range \<open>1-2\<close>.\<close>

definition word :: "int \<Rightarrow> string \<Rightarrow> token" where
  "word i w = Map.empty(''id'' \<mapsto> PInt i, ''form'' \<mapsto> PStr w)"

definition range_token :: token where
  "range_token = Map.empty(''id'' \<mapsto> PObj ''(1, '-', 2)'', ''form'' \<mapsto> PStr ''vamonos'')"

text \<open>A file system with every path readable, the file being named by its path.\<close>

definition open_any :: "string \<Rightarrow> py_error + string" where
  "open_any file_path = Inr file_path"

text \<open>
  A file whose first block parses and whose reading then fails: the incremental parser
  yields one token table and raises on the next read.
\<close>

definition late_failure :: "string \<Rightarrow> (token list) gen" where
  "late_failure f = ([[word 1 ''a'']], Some UnicodeDecodeError)"

text \<open>A corpus of one sentence of one token, as gold and as system output.\<close>

definition one_token_corpus :: "string \<Rightarrow> py_error + sentence_data list" where
  "one_token_corpus f = Inr [\<lparr>arcs = [0], labels = [7], ignore = [False]\<rparr>]"

text \<open>
  A gold corpus of one sentence of two tokens, and a system output with both arcs right and
  the second label wrong.
\<close>

definition labelled_corpora :: "string \<Rightarrow> py_error + sentence_data list" where
  "labelled_corpora f =
     (if f = ''gold.conllu'' then Inr [\<lparr>arcs = [2, 0], labels = [5, 7], ignore = [False, False]\<rparr>]
      else Inr [\<lparr>arcs = [2, 0], labels = [5, 6], ignore = [False, False]\<rparr>])"

text \<open>
  Two batches of one sentence each and a batch of three sentences, and collaborators for
  them: an evaluator that counts as the scorer of the spec does and returns numbers of the
  kind \<open>k\<close>, with a parser that predicts the gold analysis of the first sentence for every
  sentence and a mask that ignores nothing; the same with a mask that ignores every token;
  and the same with a parser that gets every arc wrong.
\<close>

definition batch1 :: batch where
  "batch1 = \<lparr>word_tokens = [[0, 5, 6]], pos_tokens = [[0, 1, 2]],
             true_arcs = [[0, 2, 0]], true_labels = [[0, 3, 4]]\<rparr>"

definition batch2 :: batch where
  "batch2 = \<lparr>word_tokens = [[0, 8]], pos_tokens = [[0, 1]],
             true_arcs = [[0, 0]], true_labels = [[0, 4]]\<rparr>"

definition batch3 :: batch where
  "batch3 = \<lparr>word_tokens = [[0, 5, 6], [0, 8], [0, 9, 7]],
             pos_tokens = [[0, 1, 2], [0, 1], [0, 1, 1]],
             true_arcs = [[0, 2, 0], [0, 0], [0, 2, 2]],
             true_labels = [[0, 3, 4], [0, 4], [0, 3, 4]]\<rparr>"

definition count_evaluator ::
  "num_kind \<Rightarrow> int list \<Rightarrow> int list \<Rightarrow> int list \<Rightarrow> int list \<Rightarrow> bool list \<Rightarrow>
   pynum \<times> pynum \<times> pynum" where
  "count_evaluator k pa pl ga gl m =
     (case count_scored (zip pa (zip pl (zip ga (zip gl m)))) of
        (u, l, c) \<Rightarrow>
          (\<lparr>kind = k, val = real u\<rparr>, \<lparr>kind = k, val = real l\<rparr>, \<lparr>kind = k, val = real c\<rparr>))"

definition sample_collaborators :: "num_kind \<Rightarrow> collaborators" where
  "sample_collaborators k =
     \<lparr>parse = (\<lambda>ws ps. (map (\<lambda>w. take (length w) [0, 2, 0]) ws,
                          map (\<lambda>w. take (length w) [0, 3, 4]) ws)),
      create_ignore_mask = (\<lambda>w p. map (\<lambda>x. False) w),
      evaluator_evaluate = count_evaluator k\<rparr>"

definition masked_collaborators :: "num_kind \<Rightarrow> collaborators" where
  "masked_collaborators k =
     (sample_collaborators k)\<lparr>create_ignore_mask := (\<lambda>w p. map (\<lambda>x. True) w)\<rparr>"

definition wrong_collaborators :: "num_kind \<Rightarrow> collaborators" where
  "wrong_collaborators k =
     (sample_collaborators k)
       \<lparr>parse := (\<lambda>ws ps. (map (map (\<lambda>x. - 1)) ws, map (map (\<lambda>x. - 1)) ws))\<rparr>"

section \<open>Lemmas on the record model and the reader\<close>

lemma parse_loop_filter:
  "list_all has_id tokenlist \<Longrightarrow>
   parse_loop tokenlist tokens = Inr (tokens @ filter has_int_id tokenlist)"
proof (induction tokenlist arbitrary: tokens)
  case Nil
  then show ?case by simp
next
  case (Cons t ts)
  from Cons.prems have rest: "list_all has_id ts" and "has_id t"
    by simp_all
  then obtain v where v: "t ''id'' = Some v"
    by (auto simp: has_id_def split: option.splits)
  show ?case
  proof (cases v)
    case (PInt n)
    with v Cons.IH[OF rest] show ?thesis by (simp add: has_int_id_def)
  qed (use v Cons.IH[OF rest] in \<open>simp_all add: has_int_id_def\<close>)
qed

lemma parse_loop_result:
  "parse_loop tokenlist tokens = Inr r \<Longrightarrow>
   r = tokens @ filter has_int_id tokenlist \<and> list_all has_id tokenlist"
proof (induction tokenlist arbitrary: tokens)
  case Nil
  then show ?case by simp
next
  case (Cons t ts)
  from Cons.prems obtain v where v: "t ''id'' = Some v"
    by (cases "t ''id''") auto
  then have ht: "has_id t" by (simp add: has_id_def)
  show ?case
  proof (cases "type_is_int v")
    case True
    then obtain n where n: "v = PInt n" by (cases v) auto
    from Cons.prems v True have "parse_loop ts (tokens @ [t]) = Inr r" by simp
    from Cons.IH[OF this] v n ht show ?thesis by (simp add: has_int_id_def)
  next
    case False
    then have nt: "\<not> has_int_id t" using v by (cases v) (auto simp: has_int_id_def)
    from Cons.prems v False have "parse_loop ts tokens = Inr r" by simp
    from Cons.IH[OF this] nt ht show ?thesis by simp
  qed
qed

lemma parse_conll_ok:
  assumes "list_all has_id tokenlist"
  shows "parse_conll tokenlist =
         (if filter has_int_id tokenlist = [] then []
          else [create_root # filter has_int_id tokenlist], None)"
  using assms by (simp add: parse_conll_def parse_loop_filter)

text \<open>
  Claim C1. For a token table in which every token has an \<open>id\<close>, \<open>parse_conll\<close> yields one
  sentence, the root token followed by exactly the tokens whose id is an integer, in their
  order; it yields nothing when no token has an integer id.
\<close>

theorem parse_conll_spec:
  assumes "list_all has_id tokenlist"
  shows "parse_conll tokenlist =
         (if filter has_int_id tokenlist = [] then []
          else [create_root # filter has_int_id tokenlist], None)"
  using assms by (rule parse_conll_ok)

lemma parse_conll_member:
  assumes "s \<in> set (fst (parse_conll tokenlist))"
  shows "s = create_root # filter has_int_id tokenlist \<and> filter has_int_id tokenlist \<noteq> []
         \<and> list_all has_id tokenlist"
proof (cases "parse_loop tokenlist [create_root]")
  case (Inl e)
  with assms show ?thesis by (simp add: parse_conll_def)
next
  case (Inr r)
  from parse_loop_result[OF Inr] have r: "r = create_root # filter has_int_id tokenlist"
    and h: "list_all has_id tokenlist" by simp_all
  from assms Inr r h show ?thesis
    by (auto simp: parse_conll_def split: if_splits)
qed

lemma create_root_fields:
  "create_root ''id'' = Some (PInt 0)"
  "create_root ''form'' = Some (PStr ''<ROOT>'')"
  "create_root ''lemma'' = Some (PStr ''<ROOT>'')"
  "create_root ''upos'' = Some (PStr ''ROOT'')"
  "create_root ''xpos'' = Some (PStr ''ROOT'')"
  "create_root ''feats'' = Some (PStr ''_'')"
  "create_root ''head'' = Some (PInt 0)"
  "create_root ''deprel'' = Some (PStr ''root'')"
  "create_root ''deps'' = Some (PStr ''_'')"
  "create_root ''misc'' = Some (PStr ''_'')"
  by (simp_all add: create_root_def)

lemma dom_create_root: "dom create_root = set attrs"
  by (auto simp: create_root_def attrs_def)

text \<open>
  Claim C9. Every sentence that \<open>parse_conll\<close> yields begins with the root token, whose ten
  fields are exactly: id 0, form and lemma \<open><ROOT>\<close>, upos and xpos \<open>ROOT\<close>, feats \<open>_\<close>,
  head 0, deprel \<open>root\<close>, deps \<open>_\<close>, misc \<open>_\<close>.
\<close>

theorem parse_conll_root:
  assumes "s \<in> set (fst (parse_conll tokenlist))"
  shows "s \<noteq> [] \<and>
         hd s ''id'' = Some (PInt 0) \<and>
         hd s ''form'' = Some (PStr ''<ROOT>'') \<and>
         hd s ''lemma'' = Some (PStr ''<ROOT>'') \<and>
         hd s ''upos'' = Some (PStr ''ROOT'') \<and>
         hd s ''xpos'' = Some (PStr ''ROOT'') \<and>
         hd s ''feats'' = Some (PStr ''_'') \<and>
         hd s ''head'' = Some (PInt 0) \<and>
         hd s ''deprel'' = Some (PStr ''root'') \<and>
         hd s ''deps'' = Some (PStr ''_'') \<and>
         hd s ''misc'' = Some (PStr ''_'') \<and>
         dom (hd s) = set attrs"
proof -
  from parse_conll_member[OF assms] have "s \<noteq> []" and "hd s = create_root"
    by simp_all
  then show ?thesis
    by (simp only: create_root_fields dom_create_root simp_thms)
qed

lemma word_id [simp]: "word i w ''id'' = Some (PInt i)"
  by (simp add: word_def)

lemma range_token_id [simp]: "range_token ''id'' = Some (PObj ''(1, '-', 2)'')"
  by (simp add: range_token_def)

theorem parse_conll_spec_witness:
  "list_all has_id [range_token, word 1 ''a'', word 2 ''b''] \<and>
   parse_conll [range_token, word 1 ''a'', word 2 ''b''] =
     ([[create_root, word 1 ''a'', word 2 ''b'']], None) \<and>
   list_all has_id [range_token] \<and> parse_conll [range_token] = ([], None)"
  using parse_conll_spec [of "[range_token, word 1 ''a'', word 2 ''b'']"]
    parse_conll_spec [of "[range_token]"]
  by (simp add: has_id_def has_int_id_def)

lemma parse_conll_sample:
  "parse_conll [range_token, word 1 ''a'', word 3 ''b''] =
     ([[create_root, word 1 ''a'', word 3 ''b'']], None)"
  by (simp add: parse_conll_def)

theorem parse_conll_root_witness:
  "[create_root, word 1 ''a'', word 3 ''b''] \<in>
     set (fst (parse_conll [range_token, word 1 ''a'', word 3 ''b''])) \<and>
   hd [create_root, word 1 ''a'', word 3 ''b''] ''id'' = Some (PInt 0) \<and>
   hd [create_root, word 1 ''a'', word 3 ''b''] ''deprel'' = Some (PStr ''root'') \<and>
   dom (hd [create_root, word 1 ''a'', word 3 ''b'']) = set attrs"
proof -
  have m: "[create_root, word 1 ''a'', word 3 ''b''] \<in>
     set (fst (parse_conll [range_token, word 1 ''a'', word 3 ''b'']))"
    by (simp add: parse_conll_sample)
  from parse_conll_root[OF m] m show ?thesis by blast
qed

lemma ids_filter:
  "map (\<lambda>t. t ''id'') (filter has_int_id ts) = map (\<lambda>n. Some (PInt n)) (int_ids ts)"
proof (induction ts)
  case Nil
  then show ?case by simp
next
  case (Cons t ts)
  show ?case
  proof (cases "t ''id''")
    case None
    with Cons show ?thesis by (simp add: has_int_id_def)
  next
    case (Some v)
    with Cons show ?thesis by (cases v) (simp_all add: has_int_id_def)
  qed
qed

lemma read_loop_member:
  "s \<in> set (fst (read_loop tokenlists stop)) \<Longrightarrow>
   \<exists>tokenlist \<in> set tokenlists. s \<in> set (fst (parse_conll tokenlist))"
proof (induction tokenlists)
  case Nil
  then show ?case by simp
next
  case (Cons a rest)
  obtain ys e where p: "parse_conll a = (ys, e)" by (cases "parse_conll a")
  obtain zs r where q: "read_loop rest stop = (zs, r)" by (cases "read_loop rest stop")
  from Cons.prems p q have "s \<in> set ys \<or> s \<in> set zs"
    by (cases e) auto
  then show ?case
  proof
    assume "s \<in> set ys"
    with p show ?thesis by auto
  next
    assume "s \<in> set zs"
    with q Cons.IH show ?thesis by auto
  qed
qed

lemma read_conll_member:
  assumes "s \<in> set (fst (read_conll open_file parse_incr file_path))"
  shows "\<exists>f tokenlist. open_file file_path = Inr f \<and> tokenlist \<in> set (fst (parse_incr f))
           \<and> s \<in> set (fst (parse_conll tokenlist))"
proof (cases "open_file file_path")
  case (Inl e)
  with assms show ?thesis by (simp add: read_conll_def)
next
  case (Inr f)
  obtain tls stop where p: "parse_incr f = (tls, stop)" by (cases "parse_incr f")
  from assms Inr p have "s \<in> set (fst (read_loop tls stop))"
    by (simp add: read_conll_def)
  from read_loop_member[OF this] Inr p show ?thesis by auto
qed


lemma sequential_cons:
  "sequential_ids (r # ts) \<longleftrightarrow>
   r ''id'' = Some (PInt 0) \<and> map (\<lambda>t. t ''id'') ts = map (\<lambda>i. Some (PInt (int (Suc i)))) [0..<length ts]"
proof -
  have "[0..<length (r # ts)] = 0 # map Suc [0..<length ts]"
    by (simp add: upt_conv_Cons map_Suc_upt del: upt_Suc)
  then show ?thesis
    by (simp add: sequential_ids_def comp_def del: upt_Suc)
qed

lemma length_int_ids: "length (int_ids ts) = length (filter has_int_id ts)"
  using ids_filter [of ts] by (metis length_map)

text \<open>
  Claim C5, as amended. In every sentence that \<open>parse_conll\<close> yields, the first element has
  id 0 and the ids of the elements after it are exactly the integer ids of the token table,
  in the order of the table; the sentence has the ids 0, 1, 2, ... if and only if the table's
  integer ids are 1, 2, ... in that order. Every sentence of the reader is a sentence that
  \<open>parse_conll\<close> yields for a token table of the file.
\<close>

theorem sentence_ids:
  "(s \<in> set (fst (parse_conll tokenlist)) \<longrightarrow>
      map (\<lambda>t. t ''id'') s = Some (PInt 0) # map (\<lambda>n. Some (PInt n)) (int_ids tokenlist) \<and>
      int_ids tokenlist \<noteq> [] \<and>
      (sequential_ids s \<longleftrightarrow>
         int_ids tokenlist = map (\<lambda>i. int (Suc i)) [0..<length (int_ids tokenlist)])) \<and>
   (s \<in> set (fst (read_conll open_file parse_incr file_path)) \<longrightarrow>
      (\<exists>f tokenlist. open_file file_path = Inr f \<and> tokenlist \<in> set (fst (parse_incr f)) \<and>
                      s \<in> set (fst (parse_conll tokenlist))))"
proof (intro conjI impI)
  assume a: "s \<in> set (fst (parse_conll tokenlist))"
  from parse_conll_member[OF a] have s: "s = create_root # filter has_int_id tokenlist"
    and ne: "filter has_int_id tokenlist \<noteq> []" by simp_all
  show ids: "map (\<lambda>t. t ''id'') s = Some (PInt 0) # map (\<lambda>n. Some (PInt n)) (int_ids tokenlist)"
    by (simp add: s ids_filter create_root_fields)
  from ne show "int_ids tokenlist \<noteq> []"
    using length_int_ids [of tokenlist] by auto
  have inj: "inj (\<lambda>n. Some (PInt n))" by (simp add: inj_on_def)
  have "sequential_ids s \<longleftrightarrow>
        map (\<lambda>n. Some (PInt n)) (int_ids tokenlist) =
        map (\<lambda>n. Some (PInt n)) (map (\<lambda>i. int (Suc i)) [0..<length (int_ids tokenlist)])"
    by (simp add: s sequential_cons ids_filter create_root_fields length_int_ids comp_def)
  also have "\<dots> \<longleftrightarrow> int_ids tokenlist = map (\<lambda>i. int (Suc i)) [0..<length (int_ids tokenlist)]"
    using inj by (rule inj_map_eq_map)
  finally show "sequential_ids s \<longleftrightarrow>
         int_ids tokenlist = map (\<lambda>i. int (Suc i)) [0..<length (int_ids tokenlist)]" .
next
  assume "s \<in> set (fst (read_conll open_file parse_incr file_path))"
  then show "\<exists>f tokenlist. open_file file_path = Inr f \<and> tokenlist \<in> set (fst (parse_incr f)) \<and>
                      s \<in> set (fst (parse_conll tokenlist))"
    by (rule read_conll_member)
qed

lemma parse_conll_gap:
  "parse_conll [word 1 ''a'', word 3 ''b''] = ([[create_root, word 1 ''a'', word 3 ''b'']], None)"
  by (simp add: parse_conll_def)

text \<open>
  Claim C5 as stated fails: a table with the ids 1 and 3 gives a sentence with the ids
  0, 1, 3.
\<close>

theorem sequential_ids_counterexample:
  "parse_conll [word 1 ''a'', word 3 ''b''] = ([[create_root, word 1 ''a'', word 3 ''b'']], None) \<and>
   \<not> sequential_ids [create_root, word 1 ''a'', word 3 ''b'']"
  by (simp add: parse_conll_gap sequential_cons upt_conv_Cons del: upt_Suc)

theorem sentence_ids_witness:
  "[create_root, word 1 ''a'', word 3 ''b''] \<in> set (fst (parse_conll [word 1 ''a'', word 3 ''b''])) \<and>
   map (\<lambda>t. t ''id'') [create_root, word 1 ''a'', word 3 ''b''] =
     [Some (PInt 0), Some (PInt 1), Some (PInt 3)] \<and>
   [create_root, word 1 ''a'', word 3 ''b''] \<in>
     set (fst (read_conll open_any (\<lambda>f. ([[word 1 ''a'', word 3 ''b'']], None)) ''f'')) \<and>
   (\<exists>f tokenlist. open_any ''f'' = Inr f \<and> tokenlist \<in> set [[word 1 ''a'', word 3 ''b'']] \<and>
      [create_root, word 1 ''a'', word 3 ''b''] \<in> set (fst (parse_conll tokenlist)))"
proof -
  let ?s = "[create_root, word 1 ''a'', word 3 ''b'']"
  let ?P = "\<lambda>f::string. ([[word 1 ''a'', word 3 ''b'']], None :: py_error option)"
  have m: "?s \<in> set (fst (parse_conll [word 1 ''a'', word 3 ''b'']))"
    by (simp add: parse_conll_gap)
  have r: "?s \<in> set (fst (read_conll open_any ?P ''f''))"
    by (simp add: read_conll_def open_any_def parse_conll_gap)
  from sentence_ids [of ?s "[word 1 ''a'', word 3 ''b'']" open_any ?P "''f''"] m r
  show ?thesis by simp
qed

lemma read_loop_ok:
  "list_all (list_all has_id) tokenlists \<Longrightarrow>
   read_loop tokenlists stop = (concat (map (\<lambda>t. fst (parse_conll t)) tokenlists), stop)"
proof (induction tokenlists)
  case Nil
  then show ?case by simp
next
  case (Cons a rest)
  then have "list_all has_id a" and IH: "read_loop rest stop = (concat (map (\<lambda>t. fst (parse_conll t)) rest), stop)"
    by simp_all
  from parse_conll_ok[OF this(1)] have "snd (parse_conll a) = None" by simp
  then obtain ys where "parse_conll a = (ys, None)" by (cases "parse_conll a") auto
  with IH show ?case by simp
qed

text \<open>
  Claim C8, as amended. When the file cannot be opened, the reader raises that error and
  yields no sentence. When reading the open file fails after some token tables (each token
  with an \<open>id\<close>), the reader has yielded the sentences of those tables and then raises that
  error.
\<close>

theorem read_conll_failure:
  "(open_file file_path = Inl e \<longrightarrow> read_conll open_file parse_incr file_path = ([], Some e)) \<and>
   (open_file file_path = Inr f \<and> parse_incr f = (tokenlists, Some e) \<and>
    list_all (list_all has_id) tokenlists \<longrightarrow>
      read_conll open_file parse_incr file_path =
        (concat (map (\<lambda>t. fst (parse_conll t)) tokenlists), Some e))"
  by (simp add: read_conll_def read_loop_ok)

text \<open>
  Claim C8 as stated fails: when reading fails after the first block, the sentence of that
  block has been yielded before the error.
\<close>

theorem no_partial_iteration_counterexample:
  "read_conll open_any late_failure ''treebank.conllu'' =
     ([[create_root, word 1 ''a'']], Some UnicodeDecodeError) \<and>
   \<not> no_partial_iteration (read_conll open_any late_failure ''treebank.conllu'')"
  by (simp add: read_conll_def open_any_def late_failure_def parse_conll_def
      no_partial_iteration_def)

theorem read_conll_failure_witness:
  "(\<lambda>p. Inl OSError :: py_error + string) ''missing.conllu'' = Inl OSError \<and>
   read_conll (\<lambda>p. Inl OSError :: py_error + string) late_failure ''missing.conllu'' = ([], Some OSError) \<and>
   open_any ''treebank.conllu'' = Inr ''treebank.conllu'' \<and>
   late_failure ''treebank.conllu'' = ([[word 1 ''a'']], Some UnicodeDecodeError) \<and>
   list_all (list_all has_id) [[word 1 ''a'']] \<and>
   read_conll open_any late_failure ''treebank.conllu'' =
     ([[create_root, word 1 ''a'']], Some UnicodeDecodeError)"
proof -
  have a: "open_any ''treebank.conllu'' = Inr ''treebank.conllu''"
    by (simp add: open_any_def)
  have b: "late_failure ''treebank.conllu'' = ([[word 1 ''a'']], Some UnicodeDecodeError)"
    by (simp add: late_failure_def)
  have c: "list_all (list_all has_id) [[word 1 ''a'']]"
    by (simp add: has_id_def)
  have d: "fst (parse_conll [word 1 ''a'']) = [[create_root, word 1 ''a'']]"
    by (simp add: parse_conll_def)
  from read_conll_failure [of "\<lambda>p. Inl OSError" "''missing.conllu''" OSError late_failure]
    read_conll_failure [of open_any "''treebank.conllu''" UnicodeDecodeError late_failure
      "''treebank.conllu''" "[[word 1 ''a'']]"] a b c d
  show ?thesis by simp
qed

section \<open>Lemmas on the writer\<close>

lemma py_eq_zero_iff: "py_eq_zero v \<longleftrightarrow> v = PInt 0"
  by (cases v) auto

lemma col_render:
  "(if dict_get t k \<noteq> PNone then py_str (dict_get t k) else ''_'') = render_absent (t k)"
proof (cases "t k")
  case None
  then show ?thesis by (simp add: dict_get_def)
next
  case (Some v)
  then show ?thesis by (cases v) (simp_all add: dict_get_def)
qed

lemma attrs_columns: "attrs = spec_columns"
  by (simp add: attrs_def spec_columns_def)

lemma line_render: "join tab (cols t) @ newline = spec_line render_absent t"
  by (simp add: cols_def spec_line_def attrs_columns comp_def col_render)

lemma dump_tokens_ok:
  "list_all has_id ts \<Longrightarrow>
   dump_tokens ts writer =
     (writer @ concat (map (spec_line render_absent)
                  (filter (\<lambda>t. t ''id'' \<noteq> Some (PInt 0)) ts)), None)"
proof (induction ts arbitrary: writer)
  case Nil
  then show ?case by simp
next
  case (Cons t ts)
  then have rest: "list_all has_id ts" and "has_id t" by simp_all
  then obtain v where v: "t ''id'' = Some v"
    by (auto simp: has_id_def split: option.splits)
  show ?case
  proof (cases "v = PInt 0")
    case True
    with v Cons.IH[OF rest] show ?thesis by simp
  next
    case False
    with v Cons.IH[OF rest] show ?thesis
      by (simp add: py_eq_zero_iff line_render)
  qed
qed

lemma dump_docs_ok:
  "list_all (list_all has_id) docs \<Longrightarrow>
   dump_docs docs writer = (writer @ spec_output render_absent docs, None)"
proof (induction docs arbitrary: writer)
  case Nil
  then show ?case by (simp add: spec_output_def)
next
  case (Cons d docs)
  then have d: "list_all has_id d" and rest: "list_all (list_all has_id) docs" by simp_all
  from Cons.IH[OF rest] show ?case
    by (simp add: dump_tokens_ok[OF d] spec_output_def spec_block_def)
qed

text \<open>
  Claim C3, as amended. For sentences in which every token has an \<open>id\<close>, the writer appends
  to its text one block per sentence: one line per token whose id is not \<open>0\<close>, with the
  columns id, form, lemma, upos, xpos, feats, head, deprel, deps, misc joined by tabs, where
  a missing or \<open>None\<close> field gives \<open>_\<close> and any other value gives its \<open>str\<close>; and one empty
  line after the lines of each sentence.
\<close>

theorem dump_conll_spec:
  assumes "list_all (list_all has_id) docs"
  shows "dump_conll docs writer = (writer @ spec_output render_absent docs, None)"
  using assms by (simp add: dump_conll_def dump_docs_ok)

lemma str_int_1: "str_int 1 = ''1''"
  by (simp add: str_int_def str_nat.simps)

lemma spec_line_word:
  "spec_line render (word 1 w) =
     join tab [render (Some (PInt 1)), render (Some (PStr w)), render None, render None,
       render None, render None, render None, render None, render None, render None] @ newline"
  by (simp add: spec_line_def spec_columns_def word_def)

theorem dump_conll_spec_witness:
  "list_all (list_all has_id) [[create_root, word 1 ''a'']] \<and>
   dump_conll [[create_root, word 1 ''a'']] [] =
     (join tab [''1'', ''a'', ''_'', ''_'', ''_'', ''_'', ''_'', ''_'', ''_'', ''_'']
        @ newline @ newline, None)"
proof -
  have h: "list_all (list_all has_id) [[create_root, word 1 ''a'']]"
    by (simp add: has_id_def create_root_def)
  have r: "create_root ''id'' = Some (PInt 0)" by (simp add: create_root_def)
  from dump_conll_spec[OF h, of "[]"] h show ?thesis
    by (simp add: spec_output_def spec_block_def r spec_line_word str_int_1)
qed

text \<open>
  Claim C3 as stated fails: an empty form is written as an empty column, not as \<open>_\<close>.
\<close>

theorem render_empty_counterexample:
  "cols (word 1 []) ! 1 = [] \<and>
   fst (dump_conll [[create_root, word 1 []]] []) \<noteq>
     spec_output render_absent_or_empty [[create_root, word 1 []]]"
proof -
  have r: "create_root ''id'' = Some (PInt 0)" by (simp add: create_root_def)
  have a: "cols (word 1 []) ! 1 = []"
    by (simp add: cols_def attrs_def dict_get_def word_def)
  have h: "list_all (list_all has_id) [[create_root, word 1 []]]"
    by (simp add: has_id_def create_root_def)
  have b: "fst (dump_conll [[create_root, word 1 []]] []) =
      spec_output render_absent [[create_root, word 1 []]]"
    by (simp only: dump_conll_def dump_docs_ok[OF h] fst_conv append_Nil)
  have c: "spec_output render_absent [[create_root, word 1 []]] \<noteq>
      spec_output render_absent_or_empty [[create_root, word 1 []]]"
    by (simp add: spec_output_def spec_block_def r spec_line_word str_int_1 tab_def)
  from a b c show ?thesis by simp
qed

section \<open>Lemmas on the totals of \<open>test\<close>\<close>

lemma py_add_assoc: "py_add (py_add a b) c = py_add a (py_add b c)"
  by (simp add: py_add_def)

lemma py_add_zero: "py_add py_zero a = a" "py_add a py_zero = a"
  by (cases "kind a"; simp add: py_add_def py_zero_def)+

lemma add3_assoc: "add3 (add3 a b) c = add3 a (add3 b c)"
  by (cases a; cases b; cases c) (simp add: py_add_assoc)

lemma add3_zero:
  "add3 (py_zero, py_zero, py_zero) a = a" "add3 a (py_zero, py_zero, py_zero) = a"
  by (cases a; simp add: py_add_zero)+

lemma sum3_append: "sum3 (xs @ ys) = add3 (sum3 xs) (sum3 ys)"
  by (induction xs) (simp_all add: add3_zero add3_assoc)

lemma test_sentences_sum:
  "test_sentences K b i items acc =
     (if length items \<le> min (length (word_tokens b)) (length (pos_tokens b)) - i
      then Inr (add3 acc (sum3 (map (sentence_result K b) (enumerate i items))))
      else Inl IndexError)"
proof (induction items arbitrary: i acc)
  case Nil
  then show ?case by (simp add: add3_zero)
next
  case (Cons item rest)
  obtain pa pl ta tb where item: "item = (pa, pl, ta, tb)" by (cases item) auto
  obtain U L c where acc: "acc = (U, L, c)" by (cases acc) auto
  let ?m = "min (length (word_tokens b)) (length (pos_tokens b))"
  show ?case
  proof (cases "i < length (word_tokens b) \<and> i < length (pos_tokens b)")
    case False
    then have n: "\<not> length (item # rest) \<le> ?m - i" by auto
    from False have "test_sentences K b i (item # rest) acc = Inl IndexError"
      unfolding item acc by (simp only: test_sentences.simps if_False)
    with n show ?thesis by (simp only: if_False)
  next
    case True
    obtain u l n where ev: "evaluator_evaluate K pa pl ta tb
        (create_ignore_mask K (word_tokens b ! i) (pos_tokens b ! i)) = (u, l, n)"
      by (metis prod_cases3)
    have step: "test_sentences K b i (item # rest) acc =
        test_sentences K b (Suc i) rest (add3 acc (u, l, n))"
      using True ev by (simp add: item acc)
    have cond: "length (item # rest) \<le> ?m - i \<longleftrightarrow> length rest \<le> ?m - Suc i"
      using True by auto
    have res: "sentence_result K b (i, item) = (u, l, n)"
      using ev by (simp add: item)
    show ?thesis
      unfolding step Cons.IH cond
      by (simp add: res add3_assoc)
  qed
qed

lemma test_batches_sum:
  "test_batches K dataset acc =
     (if list_all (batch_in_range K) dataset
      then Inr (add3 acc (sum3 (corpus_results K dataset)))
      else Inl IndexError)"
proof (induction dataset arbitrary: acc)
  case Nil
  then show ?case by (simp add: corpus_results_def add3_zero)
next
  case (Cons b bs)
  show ?case
  proof (cases "batch_in_range K b")
    case False
    then have "test_sentences K b 0 (batch_items K b) acc = Inl IndexError"
      by (simp only: test_sentences_sum batch_in_range_def diff_zero if_False)
    with False show ?thesis by simp
  next
    case True
    then have "test_sentences K b 0 (batch_items K b) acc =
        Inr (add3 acc (sum3 (sentence_results K b)))"
      by (simp add: test_sentences_sum batch_in_range_def sentence_results_def)
    then show ?thesis
      using True Cons.IH[of "add3 acc (sum3 (sentence_results K b))"]
      by (simp add: corpus_results_def sum3_append add3_assoc)
  qed
qed

lemma test_totals_eq:
  "test_totals K dataset =
     (if list_all (batch_in_range K) dataset then Inr (sum3 (corpus_results K dataset))
      else Inl IndexError)"
  by (simp add: test_totals_def test_batches_sum add3_zero)









lemma builtin3_sum3: "list_all builtin3 rs \<Longrightarrow> builtin3 (sum3 rs)"
proof (induction rs)
  case Nil
  then show ?case by (simp add: py_zero_def)
next
  case (Cons r rs)
  then show ?case
    by (cases r; cases "sum3 rs") (simp add: py_add_def)
qed

lemma array3_add3: "array3 r \<Longrightarrow> array3 (add3 r s)"
  by (cases r; cases s) (simp add: py_add_def)

lemma array3_sum3: "rs \<noteq> [] \<Longrightarrow> list_all array3 rs \<Longrightarrow> array3 (sum3 rs)"
  by (cases rs) (simp_all add: array3_add3)

lemma times_100_zero_division: "times_100 (zero_division_value a) = zero_division_value a"
  by (simp add: zero_division_value_def)

lemma test_of_totals:
  assumes "list_all (batch_in_range K) dataset"
    and "sum3 (corpus_results K dataset) = (UAS, LAS, n)"
  shows "test K dataset =
     (case py_truediv UAS n of
        Inl e \<Rightarrow> Inl e
      | Inr u \<Rightarrow>
          (case py_truediv LAS n of
             Inl e \<Rightarrow> Inl e
           | Inr l \<Rightarrow> Inr (times_100 u, times_100 l)))"
  using assms by (simp add: test_def test_totals_eq)

text \<open>
  Claim C6, as amended. Let the scored counts of all sentences add up to zero. When every
  result of the evaluator is made of built-in numbers, and so on the empty dataset, \<open>test\<close>
  ends in \<open>ZeroDivisionError\<close>. When the results are array scalars and there is at least one,
  no exception is raised and \<open>test\<close> logs not-a-number for a zero numerator and an infinity
  otherwise. With a non-zero count it logs the two percentages, 0 when nothing is right.
\<close>

theorem test_zero_count:
  "(list_all (batch_in_range K) dataset \<and>
    sum3 (corpus_results K dataset) = (UAS, LAS, n) \<and> val n = 0 \<longrightarrow>
      (list_all builtin3 (corpus_results K dataset) \<longrightarrow>
         test K dataset = Inl ZeroDivisionError) \<and>
      (corpus_results K dataset \<noteq> [] \<and> list_all array3 (corpus_results K dataset) \<longrightarrow>
         test K dataset =
           Inr (zero_division_value (val UAS), zero_division_value (val LAS)))) \<and>
   (list_all (batch_in_range K) dataset \<and>
    sum3 (corpus_results K dataset) = (UAS, LAS, n) \<and> val n \<noteq> 0 \<longrightarrow>
      test K dataset =
        Inr (Finite (val UAS / val n * 100), Finite (val LAS / val n * 100))) \<and>
   test K [] = Inl ZeroDivisionError"
proof (intro conjI impI)
  assume a: "list_all (batch_in_range K) dataset \<and>
    sum3 (corpus_results K dataset) = (UAS, LAS, n) \<and> val n = 0"
  assume "list_all builtin3 (corpus_results K dataset)"
  from builtin3_sum3[OF this] a have "kind UAS = Builtin" "kind n = Builtin" by simp_all
  with a show "test K dataset = Inl ZeroDivisionError"
    by (simp add: test_of_totals py_truediv_def)
next
  assume a: "list_all (batch_in_range K) dataset \<and>
    sum3 (corpus_results K dataset) = (UAS, LAS, n) \<and> val n = 0"
  assume "corpus_results K dataset \<noteq> [] \<and> list_all array3 (corpus_results K dataset)"
  then have "array3 (sum3 (corpus_results K dataset))" by (simp add: array3_sum3)
  with a have "kind UAS = ArrayScalar" "kind LAS = ArrayScalar" "kind n = ArrayScalar"
    by simp_all
  with a show "test K dataset =
      Inr (zero_division_value (val UAS), zero_division_value (val LAS))"
    by (simp add: test_of_totals py_truediv_def times_100_zero_division)
next
  assume "list_all (batch_in_range K) dataset \<and>
    sum3 (corpus_results K dataset) = (UAS, LAS, n) \<and> val n \<noteq> 0"
  then show "test K dataset =
      Inr (Finite (val UAS / val n * 100), Finite (val LAS / val n * 100))"
    by (simp add: test_of_totals py_truediv_def)
next
  show "test K [] = Inl ZeroDivisionError"
    by (simp add: test_def test_totals_def py_truediv_def py_zero_def)
qed

lemma results_masked:
  "corpus_results (masked_collaborators k) [batch3, batch2] =
     [(\<lparr>kind = k, val = 0\<rparr>, \<lparr>kind = k, val = 0\<rparr>, \<lparr>kind = k, val = 0\<rparr>),
      (\<lparr>kind = k, val = 0\<rparr>, \<lparr>kind = k, val = 0\<rparr>, \<lparr>kind = k, val = 0\<rparr>),
      (\<lparr>kind = k, val = 0\<rparr>, \<lparr>kind = k, val = 0\<rparr>, \<lparr>kind = k, val = 0\<rparr>),
      (\<lparr>kind = k, val = 0\<rparr>, \<lparr>kind = k, val = 0\<rparr>, \<lparr>kind = k, val = 0\<rparr>)]"
  by (simp add: corpus_results_def sentence_results_def batch_items_def
      masked_collaborators_def sample_collaborators_def batch3_def batch2_def
      count_evaluator_def)

lemma in_range_masked:
  "batch_in_range (masked_collaborators k) batch3" "batch_in_range (masked_collaborators k) batch2"
  by (simp_all add: batch_in_range_def batch_items_def masked_collaborators_def
      sample_collaborators_def batch3_def batch2_def)

lemma results_wrong:
  "corpus_results (wrong_collaborators k) [batch3, batch2] =
     [(\<lparr>kind = k, val = 0\<rparr>, \<lparr>kind = k, val = 0\<rparr>, \<lparr>kind = k, val = 3\<rparr>),
      (\<lparr>kind = k, val = 0\<rparr>, \<lparr>kind = k, val = 0\<rparr>, \<lparr>kind = k, val = 2\<rparr>),
      (\<lparr>kind = k, val = 0\<rparr>, \<lparr>kind = k, val = 0\<rparr>, \<lparr>kind = k, val = 3\<rparr>),
      (\<lparr>kind = k, val = 0\<rparr>, \<lparr>kind = k, val = 0\<rparr>, \<lparr>kind = k, val = 2\<rparr>)]"
  by (simp add: corpus_results_def sentence_results_def batch_items_def
      wrong_collaborators_def sample_collaborators_def batch3_def batch2_def
      count_evaluator_def)

lemma in_range_wrong:
  "batch_in_range (wrong_collaborators k) batch3" "batch_in_range (wrong_collaborators k) batch2"
  by (simp_all add: batch_in_range_def batch_items_def wrong_collaborators_def
      sample_collaborators_def batch3_def batch2_def)

lemma sum3_masked:
  "sum3 (corpus_results (masked_collaborators k) [batch3, batch2]) =
     (\<lparr>kind = k, val = 0\<rparr>, \<lparr>kind = k, val = 0\<rparr>, \<lparr>kind = k, val = 0\<rparr>)"
  by (cases k) (simp_all add: results_masked py_add_def py_zero_def)

lemma sum3_wrong:
  "sum3 (corpus_results (wrong_collaborators k) [batch3, batch2]) =
     (\<lparr>kind = k, val = 0\<rparr>, \<lparr>kind = k, val = 0\<rparr>, \<lparr>kind = k, val = 10\<rparr>)"
  by (cases k) (simp_all add: results_wrong py_add_def py_zero_def)

text \<open>
  Claim C6 as stated fails: with an evaluator that returns array scalars and a mask that
  ignores every token, the scored count is zero and \<open>test\<close> raises nothing; it logs
  not-a-number.
\<close>

theorem array_scalar_counterexample:
  "test_totals (masked_collaborators ArrayScalar) [batch3, batch2] =
     Inr (\<lparr>kind = ArrayScalar, val = 0\<rparr>, \<lparr>kind = ArrayScalar, val = 0\<rparr>,
          \<lparr>kind = ArrayScalar, val = 0\<rparr>) \<and>
   test (masked_collaborators ArrayScalar) [batch3, batch2] = Inr (NaN, NaN)"
  by (simp add: test_def test_totals_eq in_range_masked sum3_masked py_truediv_def
      zero_division_value_def)

theorem test_zero_count_witness:
  "test (masked_collaborators Builtin) [batch3, batch2] = Inl ZeroDivisionError \<and>
   test (masked_collaborators ArrayScalar) [batch3, batch2] = Inr (NaN, NaN) \<and>
   test (wrong_collaborators Builtin) [batch3, batch2] = Inr (Finite 0, Finite 0) \<and>
   test (wrong_collaborators ArrayScalar) [batch3, batch2] = Inr (Finite 0, Finite 0)"
proof -
  have 1: "test (masked_collaborators Builtin) [batch3, batch2] = Inl ZeroDivisionError"
    using test_zero_count [of "masked_collaborators Builtin" "[batch3, batch2]"
        "\<lparr>kind = Builtin, val = 0\<rparr>" "\<lparr>kind = Builtin, val = 0\<rparr>" "\<lparr>kind = Builtin, val = 0\<rparr>"]
    by (simp add: in_range_masked sum3_masked) (simp add: results_masked)
  have 2: "test (masked_collaborators ArrayScalar) [batch3, batch2] = Inr (NaN, NaN)"
    using test_zero_count [of "masked_collaborators ArrayScalar" "[batch3, batch2]"
        "\<lparr>kind = ArrayScalar, val = 0\<rparr>" "\<lparr>kind = ArrayScalar, val = 0\<rparr>"
        "\<lparr>kind = ArrayScalar, val = 0\<rparr>"]
    by (simp add: in_range_masked sum3_masked zero_division_value_def)
       (simp add: results_masked)
  have 3: "test (wrong_collaborators k) [batch3, batch2] = Inr (Finite 0, Finite 0)" for k
    using test_zero_count [of "wrong_collaborators k" "[batch3, batch2]"
        "\<lparr>kind = k, val = 0\<rparr>" "\<lparr>kind = k, val = 0\<rparr>" "\<lparr>kind = k, val = 10\<rparr>"]
    by (simp add: in_range_wrong sum3_wrong)
  from 1 2 3 show ?thesis by simp
qed

section \<open>Lemmas on the evaluation entry point\<close>

lemma evaluate_shape:
  assumes "evaluate open_file load_conllu eval_evaluate gold_file system_file = Inr m"
  shows "\<exists>gf sf gold system scores las uas.
           open_file gold_file = Inr gf \<and> open_file system_file = Inr sf \<and>
           load_conllu gf = Inr gold \<and> load_conllu sf = Inr system \<and>
           eval_evaluate gold system = Inr scores \<and>
           scores ''LAS'' = Some las \<and> scores ''UAS'' = Some uas \<and>
           m = Map.empty(''LAS'' \<mapsto> RNum (f1 las), ''UAS'' \<mapsto> RNum (f1 uas),
                         ''raw'' \<mapsto> RStr [])"
  using assms unfolding evaluate_def
  by (auto split: sum.splits option.splits)

lemma evaluate_returns:
  assumes "open_file gold_file = Inr gf" and "open_file system_file = Inr sf"
    and "load_conllu gf = Inr gold" and "load_conllu sf = Inr system"
    and "eval_evaluate gold system = Inr scores"
    and "scores ''LAS'' = Some las" and "scores ''UAS'' = Some uas"
  shows "evaluate open_file load_conllu eval_evaluate gold_file system_file =
           Inr (Map.empty(''LAS'' \<mapsto> RNum (f1 las), ''UAS'' \<mapsto> RNum (f1 uas),
                          ''raw'' \<mapsto> RStr []))"
  using assms by (simp add: evaluate_def)

text \<open>
  Claim C10. Whatever the two functions of \<open>utils.eval\<close> are, a mapping that \<open>evaluate\<close>
  returns has exactly the keys \<open>LAS\<close>, \<open>UAS\<close> and \<open>raw\<close>, and its \<open>raw\<close> is the empty string.
\<close>

theorem evaluate_keys:
  assumes "evaluate open_file load_conllu eval_evaluate gold_file system_file = Inr m"
  shows "dom m = {''LAS'', ''UAS'', ''raw''} \<and> m ''raw'' = Some (RStr [])"
proof -
  from evaluate_shape[OF assms] obtain las uas where
    "m = Map.empty(''LAS'' \<mapsto> RNum las, ''UAS'' \<mapsto> RNum uas, ''raw'' \<mapsto> RStr [])"
    by blast
  then show ?thesis by auto
qed

lemma spec_eval_one_token:
  "spec_eval_evaluate [\<lparr>arcs = [0], labels = [7], ignore = [False]\<rparr>]
      [\<lparr>arcs = [0], labels = [7], ignore = [False]\<rparr>] =
   Inr (Map.empty(''UAS'' \<mapsto> ratio_score 1 1, ''LAS'' \<mapsto> ratio_score 1 1))"
  by (simp add: spec_eval_evaluate_def spec_sentence_score_def)

lemma evaluate_one_token:
  "evaluate open_any one_token_corpus spec_eval_evaluate ''gold.conllu'' ''system.conllu'' =
     Inr (Map.empty(''LAS'' \<mapsto> RNum 1, ''UAS'' \<mapsto> RNum 1, ''raw'' \<mapsto> RStr []))"
  by (simp add: evaluate_def open_any_def one_token_corpus_def spec_eval_one_token
      ratio_score_def)

theorem evaluate_keys_witness:
  "evaluate open_any one_token_corpus spec_eval_evaluate ''gold.conllu'' ''system.conllu'' =
     Inr (Map.empty(''LAS'' \<mapsto> RNum 1, ''UAS'' \<mapsto> RNum 1, ''raw'' \<mapsto> RStr [])) \<and>
   dom (Map.empty(''LAS'' \<mapsto> RNum 1, ''UAS'' \<mapsto> RNum 1, ''raw'' \<mapsto> RStr [])) =
     {''LAS'', ''UAS'', ''raw''} \<and>
   (Map.empty(''LAS'' \<mapsto> RNum 1, ''UAS'' \<mapsto> RNum 1, ''raw'' \<mapsto> RStr [])) ''raw'' =
     Some (RStr [])"
  using evaluate_keys[OF evaluate_one_token] evaluate_one_token by simp

lemma count_scored_le:
  "count_scored xs = (u, l, c) \<Longrightarrow> l \<le> u \<and> u \<le> c"
proof (induction xs arbitrary: u l c)
  case Nil
  then show ?case by simp
next
  case (Cons x xs)
  obtain pa pl ga gl m where x: "x = (pa, pl, ga, gl, m)" by (cases x) auto
  obtain u' l' c' where r: "count_scored xs = (u', l', c')" by (metis prod_cases3)
  from Cons.IH[OF r] have "l' \<le> u'" "u' \<le> c'" by simp_all
  with Cons.prems x r show ?case by (auto split: if_splits)
qed

lemma spec_fold_le:
  "spec_fold gold system (u, l, c) = Inr (u', l', c') \<Longrightarrow> l \<le> u \<Longrightarrow> u \<le> c \<Longrightarrow>
   l' \<le> u' \<and> u' \<le> c'"
proof (induction gold system "(u, l, c)" arbitrary: u l c rule: spec_fold.induct)
  case 1
  then show ?case by simp
next
  case (2 g gs s ss u l c)
  from "2.prems"(1) obtain a b d where
    sc: "spec_sentence_score (arcs s) (labels s) (arcs g) (labels g) (ignore g) = Inr (a, b, d)"
    and rest: "spec_fold gs ss (u + a, l + b, c + d) = Inr (u', l', c')"
    by (auto split: sum.splits)
  from sc have "b \<le> a \<and> a \<le> d"
    by (auto simp: spec_sentence_score_def split: if_splits dest: count_scored_le)
  with "2.prems" have "l + b \<le> u + a" "u + a \<le> c + d" by simp_all
  from "2.hyps"[OF sc refl refl rest this] show ?case .
qed simp_all

lemma spec_eval_ratios:
  assumes "spec_eval_evaluate gold system = Inr scores"
  shows "\<exists>u l c. spec_fold gold system (0, 0, 0) = Inr (u, l, c) \<and> c \<noteq> 0 \<and>
           l \<le> u \<and> u \<le> c \<and>
           scores ''LAS'' = Some (ratio_score l c) \<and> scores ''UAS'' = Some (ratio_score u c)"
proof -
  from assms obtain u l c where f: "spec_fold gold system (0, 0, 0) = Inr (u, l, c)"
    and c: "c \<noteq> 0"
    and sc: "scores = Map.empty(''UAS'' \<mapsto> ratio_score u c, ''LAS'' \<mapsto> ratio_score l c)"
    by (auto simp: spec_eval_evaluate_def split: sum.splits if_splits)
  from spec_fold_le[OF f] have "l \<le> u" "u \<le> c" by simp_all
  with f c sc show ?thesis by simp
qed

text \<open>
  Claim C7, as amended. With the corpus-level evaluation of the spec, a mapping that
  \<open>evaluate\<close> returns has exactly the keys \<open>LAS\<close>, \<open>UAS\<close> and \<open>raw\<close>; its \<open>LAS\<close> and \<open>UAS\<close> are
  the F1 values of the scores of the two loaded corpora under those keys, passed through
  as they are; and these are the ratios of the labeled and unlabeled correct counts to the
  scored count, not scaled by 100: \<open>0 \<le> LAS \<le> UAS \<le> 1\<close>.
\<close>

theorem evaluate_fractions:
  assumes "evaluate open_file load_conllu spec_eval_evaluate gold_file system_file = Inr m"
  shows "\<exists>gf sf gold system scores las uas u l c.
           open_file gold_file = Inr gf \<and> open_file system_file = Inr sf \<and>
           load_conllu gf = Inr gold \<and> load_conllu sf = Inr system \<and>
           spec_eval_evaluate gold system = Inr scores \<and>
           scores ''LAS'' = Some las \<and> scores ''UAS'' = Some uas \<and>
           m = Map.empty(''LAS'' \<mapsto> RNum (f1 las), ''UAS'' \<mapsto> RNum (f1 uas),
                         ''raw'' \<mapsto> RStr []) \<and>
           dom m = {''LAS'', ''UAS'', ''raw''} \<and>
           spec_fold gold system (0, 0, 0) = Inr (u, l, c) \<and> c \<noteq> 0 \<and>
           f1 las = real l / real c \<and> f1 uas = real u / real c \<and>
           0 \<le> f1 las \<and> f1 las \<le> f1 uas \<and> f1 uas \<le> 1"
proof -
  from evaluate_shape[OF assms] obtain gf sf gold system scores las uas where
    o: "open_file gold_file = Inr gf" "open_file system_file = Inr sf"
      "load_conllu gf = Inr gold" "load_conllu sf = Inr system"
    and ev: "spec_eval_evaluate gold system = Inr scores"
    and k: "scores ''LAS'' = Some las" "scores ''UAS'' = Some uas"
    and m: "m = Map.empty(''LAS'' \<mapsto> RNum (f1 las), ''UAS'' \<mapsto> RNum (f1 uas),
                          ''raw'' \<mapsto> RStr [])"
    by blast
  from spec_eval_ratios[OF ev] k obtain u l c where
    f: "spec_fold gold system (0, 0, 0) = Inr (u, l, c)" and c: "c \<noteq> 0"
    and le: "l \<le> u" "u \<le> c"
    and r: "las = ratio_score l c" "uas = ratio_score u c"
    by auto
  have v: "f1 las = real l / real c" "f1 uas = real u / real c"
    by (simp_all add: r ratio_score_def)
  from c le have b: "0 \<le> f1 las" "f1 las \<le> f1 uas" "f1 uas \<le> 1"
    by (simp_all add: v divide_right_mono)
  have d: "dom m = {''LAS'', ''UAS'', ''raw''}" by (auto simp: m)
  show ?thesis
    by (intro exI conjI) (rule o ev k m d f c v b)+
qed

text \<open>
  Claim C7 as stated fails: for a corpus with its one token right, \<open>evaluate\<close> reports 1,
  where the percentage is 100.
\<close>

theorem percentage_counterexample:
  "evaluate open_any one_token_corpus spec_eval_evaluate ''gold.conllu'' ''system.conllu'' =
     Inr (Map.empty(''LAS'' \<mapsto> RNum 1, ''UAS'' \<mapsto> RNum 1, ''raw'' \<mapsto> RStr [])) \<and>
   percentage 1 1 = 100 \<and> RNum 1 \<noteq> RNum (percentage 1 1)"
  by (simp add: evaluate_one_token percentage_def)

lemma evaluate_labelled:
  "evaluate open_any labelled_corpora spec_eval_evaluate ''gold.conllu'' ''system.conllu'' =
     Inr (Map.empty(''LAS'' \<mapsto> RNum (1 / 2), ''UAS'' \<mapsto> RNum 1, ''raw'' \<mapsto> RStr []))"
  by (simp add: evaluate_def open_any_def labelled_corpora_def spec_eval_evaluate_def
      spec_sentence_score_def ratio_score_def)

theorem evaluate_fractions_witness:
  "evaluate open_any labelled_corpora spec_eval_evaluate ''gold.conllu'' ''system.conllu'' =
     Inr (Map.empty(''LAS'' \<mapsto> RNum (1 / 2), ''UAS'' \<mapsto> RNum 1, ''raw'' \<mapsto> RStr [])) \<and>
   (\<exists>(las::score) (uas::score) u l c.
      Map.empty(''LAS'' \<mapsto> RNum (1 / 2), ''UAS'' \<mapsto> RNum 1, ''raw'' \<mapsto> RStr []) =
        Map.empty(''LAS'' \<mapsto> RNum (f1 las), ''UAS'' \<mapsto> RNum (f1 uas), ''raw'' \<mapsto> RStr []) \<and>
      spec_fold [\<lparr>arcs = [2, 0], labels = [5, 7], ignore = [False, False]\<rparr>]
        [\<lparr>arcs = [2, 0], labels = [5, 6], ignore = [False, False]\<rparr>] (0, 0, 0) = Inr (u, l, c) \<and>
      c \<noteq> 0 \<and> f1 las = real l / real c \<and> f1 uas = real u / real c \<and>
      0 \<le> f1 las \<and> f1 las \<le> f1 uas \<and> f1 uas \<le> 1)"
proof -
  let ?M = "Map.empty(''LAS'' \<mapsto> RNum (1 / 2), ''UAS'' \<mapsto> RNum 1, ''raw'' \<mapsto> RStr [])"
  let ?g = "[\<lparr>arcs = [2, 0], labels = [5, 7], ignore = [False, False]\<rparr>]"
  let ?s = "[\<lparr>arcs = [2, 0], labels = [5, 6], ignore = [False, False]\<rparr>]"
  from evaluate_fractions[OF evaluate_labelled]
  obtain gf sf gold system scores las uas u l c where
    h: "open_any ''gold.conllu'' = Inr gf \<and> open_any ''system.conllu'' = Inr sf \<and>
        labelled_corpora gf = Inr gold \<and> labelled_corpora sf = Inr system \<and>
        spec_eval_evaluate gold system = Inr scores \<and>
        scores ''LAS'' = Some las \<and> scores ''UAS'' = Some uas \<and>
        ?M = Map.empty(''LAS'' \<mapsto> RNum (f1 las), ''UAS'' \<mapsto> RNum (f1 uas),
                       ''raw'' \<mapsto> RStr []) \<and>
        dom ?M = {''LAS'', ''UAS'', ''raw''} \<and>
        spec_fold gold system (0, 0, 0) = Inr (u, l, c) \<and> c \<noteq> 0 \<and>
        f1 las = real l / real c \<and> f1 uas = real u / real c \<and>
        0 \<le> f1 las \<and> f1 las \<le> f1 uas \<and> f1 uas \<le> 1"
    by (elim exE) (rule that)
  from h have "gf = ''gold.conllu''" "sf = ''system.conllu''"
    by (simp_all add: open_any_def)
  with h have gs: "gold = ?g" "system = ?s"
    by (simp_all add: labelled_corpora_def)
  from h have m: "?M = Map.empty(''LAS'' \<mapsto> RNum (f1 las), ''UAS'' \<mapsto> RNum (f1 uas),
                       ''raw'' \<mapsto> RStr [])"
    and f: "spec_fold gold system (0, 0, 0) = Inr (u, l, c)"
    and c: "c \<noteq> 0" and v: "f1 las = real l / real c" "f1 uas = real u / real c"
    and b: "0 \<le> f1 las" "f1 las \<le> f1 uas" "f1 uas \<le> 1"
    by blast+
  have "\<exists>(las::score) (uas::score) u l c.
      ?M = Map.empty(''LAS'' \<mapsto> RNum (f1 las), ''UAS'' \<mapsto> RNum (f1 uas), ''raw'' \<mapsto> RStr []) \<and>
      spec_fold ?g ?s (0, 0, 0) = Inr (u, l, c) \<and>
      c \<noteq> 0 \<and> f1 las = real l / real c \<and> f1 uas = real u / real c \<and>
      0 \<le> f1 las \<and> f1 las \<le> f1 uas \<and> f1 uas \<le> 1"
    by (intro exI conjI) (rule m f[unfolded gs] c v b)+
  with evaluate_labelled show ?thesis by (rule conjI)
qed

end
